theory Spec2Isabelle
  imports Main "HOL-Library.Sublist" "HOL-Library.Word"
begin

section \<open>The chat relay of app.py: data model\<close>

text \<open>
  A Python \<open>str\<close> is modelled by \<^typ>\<open>string\<close>, one \<^typ>\<open>char\<close> for each character of
  the Python string; the program only concatenates, slices, compares and tests prefixes
  of strings, and its own literals are ASCII.  A Python \<open>bytes\<close> object is a list of
  8-bit words.
\<close>

type_synonym byte = "8 word"

text \<open>
  \<open>uploaded_data_store\<close>, the process-wide dict from session id to the processed
  content of the last upload that no chat turn has consumed yet.  Every value the
  program stores is a \<open>str\<close>.
\<close>

type_synonym store = "string \<rightharpoonup> string"

text \<open>\<open>uploaded_data_store[session_id] = processed_content\<close>\<close>

definition store_put :: "string \<Rightarrow> string \<Rightarrow> store \<Rightarrow> store" where
  "store_put session_id processed_content s = s(session_id \<mapsto> processed_content)"

text \<open>\<open>uploaded_data_store.pop(session_id, None)\<close>: the value read and the dict without the key.\<close>

definition store_pop :: "string \<Rightarrow> store \<Rightarrow> string option \<times> store" where
  "store_pop session_id s = (s session_id, s(session_id := None))"

text \<open>
  The two operations as a datatype, to speak of sequences of them: a put as
  \<open>upload_file\<close> does it, a take as a chat turn does it.
\<close>

datatype store_op = Put string string | Take string

fun op_session :: "store_op \<Rightarrow> string" where
  "op_session (Put session_id processed_content) = session_id"
| "op_session (Take session_id) = session_id"

fun store_apply :: "store_op \<Rightarrow> store \<Rightarrow> store" where
  "store_apply (Put session_id processed_content) s = store_put session_id processed_content s"
| "store_apply (Take session_id) s = snd (store_pop session_id s)"

section \<open>File processing and the upload endpoint\<close>

text \<open>
  Modelled from the spec: the base64 codec.  \<open>base64.b64encode\<close> and its inverse are
  Python standard-library code that is not among the sources; they are written out
  here after RFC 4648, three bytes to four characters of the standard alphabet, with
  \<open>=\<close> padding of the last group.
\<close>

definition b64_alphabet :: string where
  "b64_alphabet = ''ABCDEFGHIJKLMNOPQRSTUVWXYZabcdefghijklmnopqrstuvwxyz0123456789+/''"

definition b64_char :: "nat \<Rightarrow> char" where
  "b64_char n = b64_alphabet ! (n mod 64)"

fun index_of :: "char \<Rightarrow> string \<Rightarrow> nat \<Rightarrow> nat option" where
  "index_of c [] i = None"
| "index_of c (x # xs) i = (if c = x then Some i else index_of c xs (Suc i))"

definition b64_index :: "char \<Rightarrow> nat option" where
  "b64_index c = index_of c b64_alphabet 0"

text \<open>
  Modelled from the spec: \<open>base64.b64encode\<close>, Python standard-library code that is
  not among the sources; the spec only names it (``encode raw bytes as a base64
  string''), and the encoding written here is the standard one of RFC 4648.
\<close>

fun b64encode :: "byte list \<Rightarrow> string" where
  "b64encode [] = []"
| "b64encode [a] =
     (let n = unat a * 65536
      in [b64_char (n div 262144), b64_char (n div 4096), CHR ''='', CHR ''=''])"
| "b64encode [a, b] =
     (let n = unat a * 65536 + unat b * 256
      in [b64_char (n div 262144), b64_char (n div 4096), b64_char (n div 64), CHR ''=''])"
| "b64encode (a # b # c # rest) =
     (let n = unat a * 65536 + unat b * 256 + unat c
      in [b64_char (n div 262144), b64_char (n div 4096), b64_char (n div 64), b64_char n]
         @ b64encode rest)"

text \<open>
  Modelled from the spec: the decoder that the round trip is measured against
  (``decoded bytes equal the original upload bytes''), which the sources never call.
  It is the strict decoder of RFC 4648: groups of four alphabet characters, padding
  only in the last group, anything else rejected with \<open>None\<close>.
\<close>

fun b64decode :: "string \<Rightarrow> byte list option" where
  "b64decode [] = Some []"
| "b64decode (c0 # c1 # c2 # c3 # rest) =
     (if c3 = CHR ''='' then
        (if rest \<noteq> [] then None
         else if c2 = CHR ''='' then
           (case (b64_index c0, b64_index c1) of
              (Some i0, Some i1) \<Rightarrow>
                (let n = i0 * 262144 + i1 * 4096 in Some [of_nat (n div 65536)])
            | _ \<Rightarrow> None)
         else
           (case (b64_index c0, b64_index c1, b64_index c2) of
              (Some i0, Some i1, Some i2) \<Rightarrow>
                (let n = i0 * 262144 + i1 * 4096 + i2 * 64
                 in Some [of_nat (n div 65536), of_nat (n div 256)])
            | _ \<Rightarrow> None))
      else
        (case (b64_index c0, b64_index c1, b64_index c2, b64_index c3) of
           (Some i0, Some i1, Some i2, Some i3) \<Rightarrow>
             (let n = i0 * 262144 + i1 * 4096 + i2 * 64 + i3
              in map_option (\<lambda>bs. of_nat (n div 65536) # of_nat (n div 256) # of_nat n # bs)
                   (b64decode rest))
         | _ \<Rightarrow> None))"
| "b64decode _ = None"

text \<open>\<open>image_to_base64(file_bytes, mime_type)\<close>\<close>

definition image_to_base64 :: "byte list \<Rightarrow> string \<Rightarrow> string" where
  "image_to_base64 file_bytes mime_type =
     ''data:'' @ mime_type @ '';base64,'' @ b64encode file_bytes"

text \<open>
  What PyMuPDF yields on the uploaded bytes: \<open>fitz.open\<close> raises (\<open>None\<close>) or gives
  the document's pages in order, and \<open>page.get_text()\<close> raises (\<open>None\<close>) or gives the
  page's text.
\<close>

type_synonym fitz_doc = "string option list option"

text \<open>The loop \<open>for page in doc: text += page.get_text()\<close>; \<open>None\<close> when a page raises.\<close>

fun get_pages_text :: "string option list \<Rightarrow> string \<Rightarrow> string option" where
  "get_pages_text [] text = Some text"
| "get_pages_text (None # pages) text = None"
| "get_pages_text (Some t # pages) text = get_pages_text pages (text @ t)"

definition pdf_fallback :: string where
  "pdf_fallback = ''Could not extract text from the PDF file.''"

text \<open>\<open>pdf_to_text(file_bytes)\<close>: any exception inside the \<open>try\<close> gives the fallback string.\<close>

definition pdf_to_text :: "fitz_doc \<Rightarrow> string" where
  "pdf_to_text doc =
     (case doc of
        None \<Rightarrow> pdf_fallback
      | Some pages \<Rightarrow>
          (case get_pages_text pages [] of
             None \<Rightarrow> pdf_fallback
           | Some text \<Rightarrow> take 15000 text))"

text \<open>
  One request to \<open>/uploadfile\<close>: the bytes read from the file, the content type the
  client declared for it (\<open>UploadFile.content_type\<close> is \<open>None\<close> when the part has
  none), the session id of the form, and what PyMuPDF makes of the bytes.
\<close>

record upload =
  file_bytes :: "byte list"
  content_type :: "string option"
  form_session_id :: string
  fitz :: fitz_doc

text \<open>The exceptions that the two endpoints raise or let through.\<close>

datatype exn =
    HTTPException nat string
  | AttributeError
  | TypeError
  | IndexError
  | APIError
  | WebSocketDisconnect

record upload_response =
  message :: string
  file_type :: string
  resp_session_id :: string

definition pdf_preamble :: string where
  "pdf_preamble =
     ''The user uploaded a PDF. The extracted text is as follows:'' @ [CHR 0x0A] @ ''---'' @ [CHR 0x0A]"

definition pdf_trailer :: string where
  "pdf_trailer = [CHR 0x0A] @ ''---'' @ [CHR 0x0A]"

text \<open>
  \<open>upload_file\<close>.  The store is returned beside the result, so that a rejected upload
  shows what it left in the store.
\<close>

definition upload_file :: "upload \<Rightarrow> store \<Rightarrow> (exn + upload_response) \<times> store" where
  "upload_file u s =
     (case content_type u of
        None \<Rightarrow> (Inl AttributeError, s)
      | Some mime_type \<Rightarrow>
          if prefix ''image/'' mime_type then
            (Inr \<lparr>message = ''Successfully uploaded and processed an image.'',
                  file_type = mime_type, resp_session_id = form_session_id u\<rparr>,
             store_put (form_session_id u) (image_to_base64 (file_bytes u) mime_type) s)
          else if mime_type = ''application/pdf'' then
            (Inr \<lparr>message = ''Successfully uploaded and processed a PDF.'',
                  file_type = mime_type, resp_session_id = form_session_id u\<rparr>,
             store_put (form_session_id u) (pdf_preamble @ pdf_to_text (fitz u) @ pdf_trailer) s)
          else (Inl (HTTPException 400 ''Unsupported file type.''), s))"

section \<open>The relay loop of the websocket endpoint\<close>

text \<open>
  The values \<open>json.loads\<close> can return.  A float is kept as mantissa and exponent, since
  only its truth value matters; a dict is the list of its items, keys distinct.
\<close>

datatype pyfloat = Finite int int | Infinity bool | NaN

datatype pyval =
    PNone
  | PBool bool
  | PInt int
  | PFloat pyfloat
  | PStr string
  | PList "pyval list"
  | PDict "(string \<times> pyval) list"

text \<open>Python's truth value of an object, as \<open>if x:\<close> and \<open>x or y\<close> test it.\<close>

fun truthy :: "pyval \<Rightarrow> bool" where
  "truthy PNone = False"
| "truthy (PBool b) = b"
| "truthy (PInt i) = (i \<noteq> 0)"
| "truthy (PFloat (Finite m e)) = (m \<noteq> 0)"
| "truthy (PFloat _) = True"
| "truthy (PStr s) = (s \<noteq> [])"
| "truthy (PList xs) = (xs \<noteq> [])"
| "truthy (PDict kvs) = (kvs \<noteq> [])"

text \<open>\<open>d.get(key, default)\<close> on a dict.\<close>

definition dict_get :: "(string \<times> pyval) list \<Rightarrow> string \<Rightarrow> pyval \<Rightarrow> pyval" where
  "dict_get kvs key dflt = (case map_of kvs key of None \<Rightarrow> dflt | Some v \<Rightarrow> v)"

datatype loads_result = JSONDecodeError | Loaded pyval

text \<open>
  The parts of a user message, \<open>{"type": "text", "text": t}\<close> and
  \<open>{"type": "image_url", "image_url": {"url": u}}\<close>, and the entries of \<open>chat_history\<close>.
\<close>

datatype part = TextPart pyval | ImageUrlPart string

datatype role = System | User | Assistant

datatype content = Text string | Parts "part list"

record chat_message =
  role :: role
  content :: content

text \<open>
  The upstream stream: each chunk carries \<open>delta.content\<close> of each of its choices
  (\<open>None\<close> or a string), and the iteration may raise instead of yielding.  The call of
  \<open>client.chat.completions.create\<close> raises or returns such a stream.
\<close>

datatype chunk = Chunk "string option list"

datatype stream_event = Yield chunk | StreamRaises

datatype create_result = CreateRaises | Stream "stream_event list"

text \<open>
  What one pass of the loop gets from outside: the text received on the websocket,
  what \<open>json.loads\<close> makes of it, and what the completion API answers.
\<close>

record turn_input =
  raw_data :: string
  loaded :: loads_result
  upstream :: create_result

text \<open>
  The state a connection works on: the global store, its own \<open>chat_history\<close>, the
  texts that \<open>websocket.send_text\<close> has delivered, the \<open>messages\<close> argument of every call
  of the completion API, and how many more sends reach the client before it is gone
  (\<open>None\<close>: it stays).
\<close>

record relay_state =
  uploaded_data_store :: store
  chat_history :: "chat_message list"
  sent :: "string list"
  create_calls :: "chat_message list list"
  sends_left :: "nat option"

definition system_prompt :: string where
  "system_prompt = ''If the user provides a blood test image or PDF, summarize the results and provide general, non-medical advice. Don't respond to anything not blood test related. Keep it short. Be helpful.''"

definition initial_history :: "chat_message list" where
  "initial_history = [\<lparr>role = System, content = Text system_prompt\<rparr>]"

text \<open>\<open>await websocket.send_text(content)\<close>\<close>

definition send_text :: "string \<Rightarrow> relay_state \<Rightarrow> (exn + unit) \<times> relay_state" where
  "send_text data st =
     (case sends_left st of
        None \<Rightarrow> (Inr (), st\<lparr>sent := sent st @ [data]\<rparr>)
      | Some 0 \<Rightarrow> (Inl WebSocketDisconnect, st)
      | Some (Suc n) \<Rightarrow> (Inr (), st\<lparr>sent := sent st @ [data], sends_left := Some n\<rparr>))"

text \<open>
  Step 1 of the loop body: the \<open>try\<close> around \<open>json.loads\<close>.  A decoding error gives the
  raw text and no file content, and the \<open>pop\<close> is not reached; a decoded value
  that is no dict has no \<open>get\<close>, and that AttributeError leaves the loop.
\<close>

definition parse_message ::
    "string \<Rightarrow> turn_input \<Rightarrow> store \<Rightarrow> exn + (pyval \<times> string option \<times> store)" where
  "parse_message session_id inp s =
     (case loaded inp of
        JSONDecodeError \<Rightarrow> Inr (PStr (raw_data inp), None, s)
      | Loaded (PDict message_payload) \<Rightarrow>
          (let user_message = dict_get message_payload ''text'' (PStr []);
               (file_content_data, s') = store_pop session_id s
           in Inr (user_message, file_content_data, s'))
      | Loaded _ \<Rightarrow> Inl AttributeError)"

definition default_image_text :: string where
  "default_image_text = ''Analyze this image and respond to my prompt.''"

definition prompt_separator :: string where
  "prompt_separator = [CHR 0x0A, CHR 0x0A] @ ''User prompt: ''"

text \<open>
  Step 2: \<open>message_content\<close>.  An absent or empty file content counts as none; string
  concatenation with a \<open>user_message\<close> that is no string raises TypeError.
\<close>

definition build_message_content :: "pyval \<Rightarrow> string option \<Rightarrow> exn + part list" where
  "build_message_content user_message file_content_data =
     (if file_content_data \<noteq> None \<and> file_content_data \<noteq> Some [] then
        (let data = the file_content_data in
         if prefix ''data:image/'' data then
           Inr [TextPart (if truthy user_message then user_message else PStr default_image_text),
                ImageUrlPart data]
         else
           (case user_message of
              PStr text \<Rightarrow> Inr [TextPart (PStr (data @ prompt_separator @ text))]
            | _ \<Rightarrow> Inl TypeError))
      else if truthy user_message then Inr [TextPart user_message]
      else Inr [])"

text \<open>
  Step 5: \<open>async for chunk in stream\<close>, with \<open>full_bot_response\<close> as accumulator.
  \<open>chunk.choices[0]\<close> raises IndexError on a chunk without choices.
\<close>

fun stream_loop ::
    "stream_event list \<Rightarrow> string \<Rightarrow> relay_state \<Rightarrow> (exn + string) \<times> relay_state" where
  "stream_loop [] full_bot_response st = (Inr full_bot_response, st)"
| "stream_loop (StreamRaises # events) full_bot_response st = (Inl APIError, st)"
| "stream_loop (Yield (Chunk []) # events) full_bot_response st = (Inl IndexError, st)"
| "stream_loop (Yield (Chunk (None # choices)) # events) full_bot_response st =
     stream_loop events full_bot_response st"
| "stream_loop (Yield (Chunk (Some delta_content # choices)) # events) full_bot_response st =
     (if delta_content \<noteq> [] then
        (case send_text delta_content st of
           (Inl e, st') \<Rightarrow> (Inl e, st')
         | (Inr _, st') \<Rightarrow> stream_loop events (full_bot_response @ delta_content) st')
      else stream_loop events full_bot_response st)"

text \<open>
  How a pass of the loop ends when no exception leaves it: at the \<open>continue\<close>, or after
  the stream, with the \<open>message_content\<close> it appended and the \<open>full_bot_response\<close> it
  accumulated.
\<close>

datatype turn_outcome = Skipped | Streamed "part list" string

text \<open>One pass of the body of \<open>while True\<close>, from the received text on.\<close>

definition websocket_turn ::
    "string \<Rightarrow> turn_input \<Rightarrow> relay_state \<Rightarrow> (exn + turn_outcome) \<times> relay_state" where
  "websocket_turn session_id inp st =
     (case parse_message session_id inp (uploaded_data_store st) of
        Inl e \<Rightarrow> (Inl e, st)
      | Inr (user_message, file_content_data, s') \<Rightarrow>
          (let st1 = st\<lparr>uploaded_data_store := s'\<rparr> in
           case build_message_content user_message file_content_data of
             Inl e \<Rightarrow> (Inl e, st1)
           | Inr message_content \<Rightarrow>
               if message_content = [] then (Inr Skipped, st1)
               else
                 (let st2 = st1\<lparr>chat_history := chat_history st1
                              @ [\<lparr>role = User, content = Parts message_content\<rparr>]\<rparr>;
                      st3 = st2\<lparr>create_calls := create_calls st2 @ [chat_history st2]\<rparr>
                  in case upstream inp of
                       CreateRaises \<Rightarrow> (Inl APIError, st3)
                     | Stream events \<Rightarrow>
                         (case stream_loop events [] st3 of
                            (Inl e, st4) \<Rightarrow> (Inl e, st4)
                          | (Inr full_bot_response, st4) \<Rightarrow>
                              (Inr (Streamed message_content full_bot_response),
                               if full_bot_response \<noteq> [] then
                                 st4\<lparr>chat_history := chat_history st4
                                   @ [\<lparr>role = Assistant, content = Text full_bot_response\<rparr>]\<rparr>
                               else st4)))))"

text \<open>
  The loop over the messages the client sends; when they are used up,
  \<open>receive_text\<close> raises WebSocketDisconnect.  The exception that ends the loop is
  returned with the state reached.
\<close>

fun relay_loop :: "string \<Rightarrow> turn_input list \<Rightarrow> relay_state \<Rightarrow> exn \<times> relay_state" where
  "relay_loop session_id [] st = (WebSocketDisconnect, st)"
| "relay_loop session_id (inp # inps) st =
     (case websocket_turn session_id inp st of
        (Inl e, st') \<Rightarrow> (e, st')
      | (Inr _, st') \<Rightarrow> relay_loop session_id inps st')"

text \<open>
  The text fragments an upstream stream produces, in the spec's sense: the
  \<open>delta.content\<close> of the first choice of each chunk, where there is one.
\<close>

fun fragments :: "stream_event list \<Rightarrow> string list" where
  "fragments [] = []"
| "fragments (Yield (Chunk (Some delta_content # choices)) # events) =
     delta_content # fragments events"
| "fragments (e # events) = fragments events"

text \<open>Extraction fails when \<open>fitz.open\<close> raises or \<open>get_text\<close> raises on some page.\<close>

definition extraction_fails :: "fitz_doc \<Rightarrow> bool" where
  "extraction_fails doc = (case doc of None \<Rightarrow> True | Some pages \<Rightarrow> None \<in> set pages)"

section \<open>Base64: decoding inverts encoding\<close>

lemma index_of_nth:
  "distinct xs \<Longrightarrow> n < length xs \<Longrightarrow> index_of (xs ! n) xs i = Some (i + n)"
proof (induction xs arbitrary: n i)
  case Nil
  then show ?case by simp
next
  case (Cons x xs)
  show ?case
  proof (cases n)
    case 0
    then show ?thesis by simp
  next
    case (Suc m)
    with Cons.prems have "xs ! m \<noteq> x" "m < length xs" "distinct xs"
      by auto
    with Cons.IH [of m "Suc i"] Suc show ?thesis by simp
  qed
qed

lemma length_b64_alphabet: "length b64_alphabet = 64"
  by (simp add: b64_alphabet_def)

lemma distinct_b64_alphabet: "distinct b64_alphabet"
  by (simp add: b64_alphabet_def)

lemma pad_not_in_alphabet: "CHR ''='' \<notin> set b64_alphabet"
  by (simp add: b64_alphabet_def)

lemma b64_index_char: "b64_index (b64_char n) = Some (n mod 64)"
  using index_of_nth [OF distinct_b64_alphabet, of "n mod 64" 0]
  by (simp add: b64_index_def b64_char_def length_b64_alphabet)

lemma b64_char_not_pad: "b64_char n \<noteq> CHR ''=''"
proof -
  have "b64_char n \<in> set b64_alphabet"
    unfolding b64_char_def by (rule nth_mem) (simp add: length_b64_alphabet)
  with pad_not_in_alphabet show ?thesis by metis
qed

lemma unat_byte: "unat (a :: byte) < 256"
  using unsigned_less [of a, where 'a = nat] by simp

lemma byte_of_nat: "x mod 256 = unat a \<Longrightarrow> (of_nat x :: byte) = a"
proof -
  assume h: "x mod 256 = unat a"
  have "(of_nat x :: byte) = of_nat (x mod 256)"
    by (simp add: word_of_nat_eq_iff take_bit_eq_mod)
  with h show ?thesis by simp
qed

text \<open>A number below \<open>2^24\<close> is the sum of its four 6-bit digits.\<close>

lemma sextets:
  fixes n :: nat
  assumes "n < 16777216"
  shows "n div 262144 mod 64 * 262144 + n div 4096 mod 64 * 4096
         + n div 64 mod 64 * 64 + n mod 64 = n"
proof -
  define q1 where "q1 = n div 64"
  define q2 where "q2 = q1 div 64"
  define q3 where "q3 = q2 div 64"
  define r0 where "r0 = n mod 64"
  define r1 where "r1 = q1 mod 64"
  define r2 where "r2 = q2 mod 64"
  have e0: "n = q1 * 64 + r0"
    by (simp add: q1_def r0_def)
  have e1: "q1 = q2 * 64 + r1"
    by (simp add: q2_def r1_def)
  have e2: "q2 = q3 * 64 + r2"
    by (simp add: q3_def r2_def)
  have d2: "q2 = n div 4096"
    using div_mult2_eq [of n 64 64] by (simp add: q2_def q1_def)
  have d3: "q3 = n div 262144"
    using div_mult2_eq [of n 4096 64] by (simp add: q3_def d2)
  have "q3 < 64"
    unfolding d3 using assms by (intro less_mult_imp_div_less) simp
  then have m3: "q3 mod 64 = q3"
    by simp
  have "q3 * 262144 + r2 * 4096 + r1 * 64 + r0 = n"
    using e0 e1 e2 by simp
  then show ?thesis
    using m3 by (simp add: d3 [symmetric] d2 [symmetric] r2_def r1_def r0_def q1_def [symmetric])
qed

lemma div_mod_256:
  fixes x y :: nat
  assumes "y < 256"
  shows "(x * 256 + y) div 256 = x" and "(x * 256 + y) mod 256 = y"
  using assms by simp_all

text \<open>Three bytes are the three 8-bit digits of the number they make.\<close>

lemma octets:
  fixes a b c :: nat
  assumes "a < 256" "b < 256" "c < 256"
  defines "n \<equiv> a * 65536 + b * 256 + c"
  shows "n div 65536 mod 256 = a" and "n div 256 mod 256 = b" and "n mod 256 = c"
    and "n < 16777216"
proof -
  have n: "n = (a * 256 + b) * 256 + c"
    by (simp add: n_def)
  have 1: "n div 256 = a * 256 + b"
    unfolding n using \<open>c < 256\<close> by (rule div_mod_256)
  show "n mod 256 = c"
    unfolding n using \<open>c < 256\<close> by (rule div_mod_256)
  show "n div 256 mod 256 = b"
    unfolding 1 using \<open>b < 256\<close> by (rule div_mod_256)
  have "n div 65536 = n div 256 div 256"
    using div_mult2_eq [of n 256 256] by simp
  also have "\<dots> = a"
    unfolding 1 using \<open>b < 256\<close> by (rule div_mod_256)
  finally show "n div 65536 mod 256 = a"
    using \<open>a < 256\<close> by simp
  show "n < 16777216"
    using assms by (simp add: n_def)
qed

lemma decode_group3:
  fixes a b c :: byte
  defines "n \<equiv> unat a * 65536 + unat b * 256 + unat c"
  shows "b64decode (b64_char (n div 262144) # b64_char (n div 4096) # b64_char (n div 64)
                      # b64_char n # rest)
         = map_option (\<lambda>bs. a # b # c # bs) (b64decode rest)"
proof -
  note o = octets [OF unat_byte [of a] unat_byte [of b] unat_byte [of c], folded n_def]
  have s: "n div 262144 mod 64 * 262144 + n div 4096 mod 64 * 4096
           + n div 64 mod 64 * 64 + n mod 64 = n"
    using o(4) by (rule sextets)
  have "(of_nat (n div 65536) :: byte) = a" "(of_nat (n div 256) :: byte) = b"
       "(of_nat n :: byte) = c"
    using o by (auto intro: byte_of_nat)
  then show ?thesis
    by (simp add: b64_index_char b64_char_not_pad s)
qed

lemma decode_group2:
  fixes a b :: byte
  defines "n \<equiv> unat a * 65536 + unat b * 256"
  shows "b64decode [b64_char (n div 262144), b64_char (n div 4096), b64_char (n div 64), CHR ''='']
         = Some [a, b]"
proof -
  have n0: "n = unat a * 65536 + unat b * 256 + 0"
    by (simp add: n_def)
  note o = octets [OF unat_byte [of a] unat_byte [of b], of 0, folded n0]
  have "n = (unat a * 1024 + unat b * 4) * 64"
    by (simp add: n_def)
  then have "n mod 64 = 0"
    by simp
  with sextets [of n] o(4)
  have s: "n div 262144 mod 64 * 262144 + n div 4096 mod 64 * 4096 + n div 64 mod 64 * 64 = n"
    by simp
  have "(of_nat (n div 65536) :: byte) = a" "(of_nat (n div 256) :: byte) = b"
    using o by (auto intro: byte_of_nat)
  then show ?thesis
    by (simp add: b64_index_char b64_char_not_pad s)
qed

lemma decode_group1:
  fixes a :: byte
  defines "n \<equiv> unat a * 65536"
  shows "b64decode [b64_char (n div 262144), b64_char (n div 4096), CHR ''='', CHR ''='']
         = Some [a]"
proof -
  have n0: "n = unat a * 65536 + 0 * 256 + 0"
    by (simp add: n_def)
  note o = octets [OF unat_byte [of a], of 0 0, folded n0]
  have "n = (unat a * 1024) * 64"
    by (simp add: n_def)
  then have m0: "n mod 64 = 0"
    by simp
  have "n div 64 = unat a * 1024"
    by (simp add: n_def)
  also have "\<dots> = (unat a * 16) * 64"
    by simp
  finally have m1: "n div 64 mod 64 = 0"
    by simp
  from sextets [of n] o(4) m0 m1
  have s: "n div 262144 mod 64 * 262144 + n div 4096 mod 64 * 4096 = n"
    by simp
  have "(of_nat (n div 65536) :: byte) = a"
    using o by (auto intro: byte_of_nat)
  then show ?thesis
    by (simp add: b64_index_char b64_char_not_pad s)
qed

lemma b64_roundtrip: "b64decode (b64encode bs) = Some bs"
proof (induction bs rule: b64encode.induct)
  case 1
  show ?case by simp
next
  case (2 a)
  show ?case using decode_group1 [of a] by (simp add: Let_def)
next
  case (3 a b)
  show ?case using decode_group2 [of a b] by (simp add: Let_def)
next
  case (4 a b c rest)
  show ?case using decode_group3 [of a b c "b64encode rest"] 4 by (simp add: Let_def)
qed

text \<open>The encoder on the test vectors of RFC 4648, section 10 (\<open>f\<close>, \<open>fo\<close>, \<open>foo\<close>, \<open>foob\<close>).\<close>

lemma b64encode_rfc_vectors:
  "b64encode [0x66] = ''Zg==''"
  "b64encode [0x66, 0x6F] = ''Zm8=''"
  "b64encode [0x66, 0x6F, 0x6F] = ''Zm9v''"
  "b64encode [0x66, 0x6F, 0x6F, 0x62] = ''Zm9vYg==''"
  by (simp_all add: b64_char_def b64_alphabet_def)

section \<open>The upload endpoint\<close>

lemma get_pages_text_None: "get_pages_text pages acc = None \<longleftrightarrow> None \<in> set pages"
  by (induction pages acc rule: get_pages_text.induct) auto

lemma length_pdf_fallback: "length pdf_fallback = 41"
  by (simp add: pdf_fallback_def)

lemma length_pdf_to_text: "length (pdf_to_text doc) \<le> 15000"
  by (simp add: pdf_to_text_def length_pdf_fallback split: option.splits)

lemma pdf_to_text_fails:
  assumes "extraction_fails doc"
  shows "pdf_to_text doc = pdf_fallback"
proof (cases doc)
  case None
  then show ?thesis by (simp add: pdf_to_text_def)
next
  case (Some pages)
  with assms have "None \<in> set pages"
    by (simp add: extraction_fails_def)
  then have "get_pages_text pages [] = None"
    by (simp add: get_pages_text_None)
  with Some show ?thesis by (simp add: pdf_to_text_def)
qed

lemma upload_file_pdf:
  "content_type u = Some ''application/pdf'' \<Longrightarrow>
   upload_file u s =
     (Inr \<lparr>message = ''Successfully uploaded and processed a PDF.'',
           file_type = ''application/pdf'', resp_session_id = form_session_id u\<rparr>,
      s(form_session_id u \<mapsto> pdf_preamble @ pdf_to_text (fitz u) @ pdf_trailer))"
  by (simp add: upload_file_def store_put_def)

text \<open>
  C4: an image upload with declared content type \<open>mime_type\<close> stores, under the session
  id of the upload, the string \<open>data:<mime_type>;base64,\<close> followed by the base64
  encoding of the uploaded bytes, and decoding that encoding gives the bytes back.
\<close>

theorem image_upload_stores_data_uri:
  assumes "content_type u = Some mime_type" and "prefix ''image/'' mime_type"
  shows "snd (upload_file u s) (form_session_id u)
           = Some (''data:'' @ mime_type @ '';base64,'' @ b64encode (file_bytes u))
         \<and> b64decode (b64encode (file_bytes u)) = Some (file_bytes u)"
  using assms by (simp add: upload_file_def store_put_def image_to_base64_def b64_roundtrip)

theorem image_upload_stores_data_uri_witness:
  "snd (upload_file \<lparr>file_bytes = [0x89, 0x50, 0x4E, 0x47], content_type = Some ''image/png'',
                     form_session_id = ''s1'', fitz = None\<rparr> Map.empty) ''s1''
     = Some ''data:image/png;base64,iVBORw==''
   \<and> b64decode ''iVBORw=='' = Some [0x89, 0x50, 0x4E, 0x47]"
  using image_upload_stores_data_uri
    [of "\<lparr>file_bytes = [0x89, 0x50, 0x4E, 0x47], content_type = Some ''image/png'',
          form_session_id = ''s1'', fitz = None\<rparr>" "''image/png''" Map.empty]
  by (simp add: b64_char_def b64_alphabet_def)

text \<open>
  C7: an upload whose declared content type neither starts with \<open>image/\<close> nor is
  \<open>application/pdf\<close> is answered with the HTTP error 400, and the store is the one
  from before the upload.
\<close>

theorem unsupported_upload_rejected:
  assumes "content_type u = Some mime_type"
    and "\<not> prefix ''image/'' mime_type"
    and "mime_type \<noteq> ''application/pdf''"
  shows "upload_file u s = (Inl (HTTPException 400 ''Unsupported file type.''), s)"
  using assms by (simp add: upload_file_def)

theorem unsupported_upload_rejected_witness:
  "upload_file \<lparr>file_bytes = [0x68, 0x69], content_type = Some ''text/plain'',
                form_session_id = ''s1'', fitz = None\<rparr>
               [''s1'' \<mapsto> ''old'']
   = (Inl (HTTPException 400 ''Unsupported file type.''), [''s1'' \<mapsto> ''old''])"
  using unsupported_upload_rejected
    [of "\<lparr>file_bytes = [0x68, 0x69], content_type = Some ''text/plain'',
          form_session_id = ''s1'', fitz = None\<rparr>" "''text/plain''" "[''s1'' \<mapsto> ''old'']"]
  by simp

text \<open>
  C5: a PDF upload stores the fixed preamble, the result of \<open>pdf_to_text\<close> and the
  fixed trailer; the result of \<open>pdf_to_text\<close> has at most 15,000 characters whatever
  the document; and when the extraction fails, that result is the fallback string and
  the upload still succeeds.
\<close>

theorem pdf_upload_text_capped:
  assumes "content_type u = Some ''application/pdf''"
  shows "snd (upload_file u s) (form_session_id u)
            = Some (pdf_preamble @ pdf_to_text (fitz u) @ pdf_trailer)
         \<and> length (pdf_to_text (fitz u)) \<le> 15000
         \<and> (extraction_fails (fitz u) \<longrightarrow>
              pdf_to_text (fitz u) = ''Could not extract text from the PDF file.''
              \<and> (\<exists>r. fst (upload_file u s) = Inr r))"
  using assms
  by (simp add: upload_file_pdf length_pdf_to_text pdf_to_text_fails)
     (simp add: pdf_fallback_def)

theorem pdf_upload_text_capped_witness:
  "extraction_fails (Some [Some ''Hb 13.5'', None])
   \<and> snd (upload_file \<lparr>file_bytes = [0x25, 0x50, 0x44, 0x46],
                        content_type = Some ''application/pdf'',
                        form_session_id = ''s1'', fitz = Some [Some ''Hb 13.5'', None]\<rparr>
                       Map.empty) ''s1''
       = Some (pdf_preamble @ ''Could not extract text from the PDF file.'' @ pdf_trailer)
   \<and> (\<exists>r. fst (upload_file \<lparr>file_bytes = [0x25, 0x50, 0x44, 0x46],
                        content_type = Some ''application/pdf'',
                        form_session_id = ''s1'', fitz = Some [Some ''Hb 13.5'', None]\<rparr>
                       Map.empty) = Inr r)"
  using pdf_upload_text_capped
    [of "\<lparr>file_bytes = [0x25, 0x50, 0x44, 0x46], content_type = Some ''application/pdf'',
          form_session_id = ''s1'', fitz = Some [Some ''Hb 13.5'', None]\<rparr>" Map.empty]
  by (simp add: extraction_fails_def)

text \<open>
  C2, as the spec states it, fails: for a PDF of five pages with 20,000 characters of
  text, the stored payload is not the first 15,000 characters of the text, since the
  preamble and the trailer are around them.
\<close>

theorem pdf_payload_is_not_bare_text:
  "snd (upload_file \<lparr>file_bytes = [0x25, 0x50, 0x44, 0x46],
                     content_type = Some ''application/pdf'', form_session_id = ''s1'',
                     fitz = Some [Some (replicate 4000 (CHR ''a'')), Some (replicate 4000 (CHR ''b'')),
                                  Some (replicate 4000 (CHR ''c'')), Some (replicate 4000 (CHR ''d'')),
                                  Some (replicate 4000 (CHR ''e''))]\<rparr>
                   Map.empty) ''s1''
   \<noteq> Some (take 15000 (replicate 4000 (CHR ''a'') @ replicate 4000 (CHR ''b'')
                        @ replicate 4000 (CHR ''c'') @ replicate 4000 (CHR ''d'')
                        @ replicate 4000 (CHR ''e'')))"
    (is "snd (upload_file ?u Map.empty) ''s1'' \<noteq> Some (take 15000 ?text)")
proof -
  have stored: "snd (upload_file ?u Map.empty) ''s1''
                  = Some (pdf_preamble @ take 15000 ?text @ pdf_trailer)"
    by (simp add: upload_file_pdf pdf_to_text_def)
  have "length (pdf_preamble @ take 15000 ?text @ pdf_trailer) \<noteq> length (take 15000 ?text)"
    by (simp add: pdf_preamble_def pdf_trailer_def)
  then have "pdf_preamble @ take 15000 ?text @ pdf_trailer \<noteq> take 15000 ?text"
    by metis
  with stored show ?thesis
    by simp
qed

text \<open>
  C2, amended: for a PDF upload whose extracted text has 20,000 characters, the stored
  payload is the fixed preamble, then exactly the first 15,000 characters of the
  extracted text, then the fixed trailer.
\<close>

theorem pdf_payload_wraps_first_15000:
  assumes "content_type u = Some ''application/pdf''"
    and "fitz u = Some pages"
    and "get_pages_text pages [] = Some text"
    and "length text = 20000"
  shows "snd (upload_file u s) (form_session_id u)
           = Some (pdf_preamble @ take 15000 text @ pdf_trailer)
         \<and> length (take 15000 text) = 15000"
  using assms by (simp add: upload_file_pdf pdf_to_text_def)

theorem pdf_payload_wraps_first_15000_witness:
  "length (replicate 20000 (CHR ''a'')) = 20000
   \<and> snd (upload_file \<lparr>file_bytes = [0x25, 0x50, 0x44, 0x46],
                        content_type = Some ''application/pdf'', form_session_id = ''s1'',
                        fitz = Some [Some (replicate 20000 (CHR ''a''))]\<rparr> Map.empty) ''s1''
       = Some (pdf_preamble @ replicate 15000 (CHR ''a'') @ pdf_trailer)"
  using pdf_payload_wraps_first_15000
    [of "\<lparr>file_bytes = [0x25, 0x50, 0x44, 0x46], content_type = Some ''application/pdf'',
          form_session_id = ''s1'', fitz = Some [Some (replicate 20000 (CHR ''a''))]\<rparr>"
        "[Some (replicate 20000 (CHR ''a''))]" "replicate 20000 (CHR ''a'')" Map.empty]
  by simp

section \<open>The session store\<close>

lemma store_apply_other:
  "\<forall>op \<in> set ops. op_session op \<noteq> sid \<Longrightarrow> fold store_apply ops s sid = s sid"
proof (induction ops arbitrary: s)
  case Nil
  show ?case by simp
next
  case (Cons op ops)
  from Cons.prems have "store_apply op s sid = s sid"
    by (cases op) (auto simp: store_put_def store_pop_def)
  with Cons show ?case by simp
qed

text \<open>
  C6: after a put of a payload for a session id, and any operations on other session
  ids but none on this one, a take for the id returns exactly that payload, and a
  second take right after it returns nothing.
\<close>

theorem store_take_after_put:
  assumes "\<forall>op \<in> set ops. op_session op \<noteq> sid"
  shows "fst (store_pop sid (fold store_apply ops (store_put sid payload s))) = Some payload
         \<and> fst (store_pop sid (snd (store_pop sid
                  (fold store_apply ops (store_put sid payload s))))) = None"
  using store_apply_other [OF assms, of "store_put sid payload s"]
  by (simp add: store_pop_def store_put_def)

theorem store_take_after_put_witness:
  "op_session (Put ''s2'' ''data:image/png;base64,iVBORw=='') \<noteq> ''s1''
   \<and> op_session (Take ''s3'') \<noteq> ''s1''
   \<and> store_pop ''s1'' (fold store_apply [Put ''s2'' ''data:image/png;base64,iVBORw=='', Take ''s3'']
         (store_put ''s1'' ''data:image/gif;base64,Zm9v'' [''s1'' \<mapsto> ''old'']))
       = (Some ''data:image/gif;base64,Zm9v'', [''s2'' \<mapsto> ''data:image/png;base64,iVBORw==''])
   \<and> fst (store_pop ''s1'' [''s2'' \<mapsto> ''data:image/png;base64,iVBORw=='']) = None"
proof -
  have h: "\<forall>op \<in> set [Put ''s2'' ''data:image/png;base64,iVBORw=='', Take ''s3'']. op_session op \<noteq> ''s1''"
    by simp
  have run: "store_pop ''s1'' (fold store_apply [Put ''s2'' ''data:image/png;base64,iVBORw=='', Take ''s3'']
         (store_put ''s1'' ''data:image/gif;base64,Zm9v'' [''s1'' \<mapsto> ''old'']))
       = (Some ''data:image/gif;base64,Zm9v'', [''s2'' \<mapsto> ''data:image/png;base64,iVBORw==''])"
    by (auto simp: store_pop_def store_put_def fun_eq_iff)
  from store_take_after_put [OF h, of "''data:image/gif;base64,Zm9v''" "[''s1'' \<mapsto> ''old'']"] h run
  show ?thesis
    by simp
qed

section \<open>The relay loop\<close>

lemma send_text_frame:
  assumes "send_text d st = (r, st')"
  shows "uploaded_data_store st' = uploaded_data_store st"
    and "chat_history st' = chat_history st"
    and "create_calls st' = create_calls st"
  using assms by (auto simp: send_text_def split: option.splits nat.splits)

lemma send_text_sent:
  assumes "send_text d st = (Inr u, st')"
  shows "sent st' = sent st @ [d]"
  using assms by (auto simp: send_text_def split: option.splits nat.splits)

text \<open>The stream loop touches neither the store, nor the history, nor the upstream calls.\<close>

lemma stream_loop_frame:
  "stream_loop events full st = (r, st') \<Longrightarrow>
   uploaded_data_store st' = uploaded_data_store st
   \<and> chat_history st' = chat_history st
   \<and> create_calls st' = create_calls st"
proof (induction events full st rule: stream_loop.induct)
  case (5 delta_content choices events full st)
  show ?case
  proof (cases "delta_content = []")
    case True
    with 5 show ?thesis by simp
  next
    case False
    obtain r1 st1 where s: "send_text delta_content st = (r1, st1)"
      by (cases "send_text delta_content st")
    note f = send_text_frame [OF s]
    show ?thesis
    proof (cases r1)
      case (Inl e)
      with 5 False s f show ?thesis by simp
    next
      case (Inr u)
      with 5 False s f show ?thesis by simp
    qed
  qed
qed simp_all

lemma concat_filter_nonempty: "concat (filter (\<lambda>f. f \<noteq> []) fs) = concat fs"
  by (induction fs) simp_all

lemma stream_loop_sent:
  "stream_loop events full st = (Inr full', st') \<Longrightarrow>
   sent st' = sent st @ filter (\<lambda>f. f \<noteq> []) (fragments events)
   \<and> full' = full @ concat (fragments events)"
proof (induction events full st rule: stream_loop.induct)
  case (5 delta_content choices events full st)
  show ?case
  proof (cases "delta_content = []")
    case True
    with 5 show ?thesis by simp
  next
    case False
    obtain r1 st1 where s: "send_text delta_content st = (r1, st1)"
      by (cases "send_text delta_content st")
    show ?thesis
    proof (cases r1)
      case (Inl e)
      with 5 False s show ?thesis by simp
    next
      case (Inr u)
      with 5 False s send_text_sent [of delta_content st u st1] show ?thesis by simp
    qed
  qed
qed simp_all

text \<open>
  C3, as the spec states it, fails: an upstream stream that produces the empty
  fragment and then \<open>hi\<close> is consumed to its end, and the client is sent \<open>hi\<close> alone,
  so the fragments forwarded are not the fragments produced.
\<close>

theorem empty_fragment_not_forwarded:
  "fragments [Yield (Chunk [Some '''']), Yield (Chunk [Some ''hi''])] = ['''', ''hi'']
   \<and> stream_loop [Yield (Chunk [Some '''']), Yield (Chunk [Some ''hi''])] ''''
        \<lparr>uploaded_data_store = Map.empty, chat_history = initial_history, sent = [],
         create_calls = [], sends_left = None\<rparr>
      = (Inr ''hi'',
         \<lparr>uploaded_data_store = Map.empty, chat_history = initial_history, sent = [''hi''],
          create_calls = [], sends_left = None\<rparr>)
   \<and> sent (snd (stream_loop [Yield (Chunk [Some '''']), Yield (Chunk [Some ''hi''])] ''''
        \<lparr>uploaded_data_store = Map.empty, chat_history = initial_history, sent = [],
         create_calls = [], sends_left = None\<rparr>))
      \<noteq> fragments [Yield (Chunk [Some '''']), Yield (Chunk [Some ''hi''])]"
  by (simp add: send_text_def)

text \<open>
  C3, amended: when an upstream stream is consumed to its end, the texts sent to the
  client during it are exactly the non-empty fragments the stream produced, in the same
  order, none dropped or duplicated; their concatenation is the concatenation of all the
  upstream fragments, and so is what the loop adds to the accumulated response.
\<close>

theorem stream_forwards_nonempty_fragments:
  assumes "stream_loop events full st = (Inr full', st')"
  shows "sent st' = sent st @ filter (\<lambda>f. f \<noteq> []) (fragments events)
         \<and> concat (filter (\<lambda>f. f \<noteq> []) (fragments events)) = concat (fragments events)
         \<and> full' = full @ concat (fragments events)"
  using stream_loop_sent [OF assms] by (simp add: concat_filter_nonempty)

theorem stream_forwards_nonempty_fragments_witness:
  "stream_loop [Yield (Chunk [Some '''']), Yield (Chunk [Some ''Hb '']), Yield (Chunk [None]),
                Yield (Chunk [Some ''is fine'', Some ''x''])] ''''
        \<lparr>uploaded_data_store = Map.empty, chat_history = initial_history, sent = [],
         create_calls = [], sends_left = Some 2\<rparr>
     = (Inr ''Hb is fine'',
        \<lparr>uploaded_data_store = Map.empty, chat_history = initial_history,
         sent = [''Hb '', ''is fine''], create_calls = [], sends_left = Some 0\<rparr>)
   \<and> [''Hb '', ''is fine'']
       = [] @ filter (\<lambda>f. f \<noteq> [])
            (fragments [Yield (Chunk [Some '''']), Yield (Chunk [Some ''Hb '']), Yield (Chunk [None]),
                        Yield (Chunk [Some ''is fine'', Some ''x''])])"
proof -
  have run: "stream_loop [Yield (Chunk [Some '''']), Yield (Chunk [Some ''Hb '']), Yield (Chunk [None]),
                Yield (Chunk [Some ''is fine'', Some ''x''])] ''''
        \<lparr>uploaded_data_store = Map.empty, chat_history = initial_history, sent = [],
         create_calls = [], sends_left = Some 2\<rparr>
     = (Inr ''Hb is fine'',
        \<lparr>uploaded_data_store = Map.empty, chat_history = initial_history,
         sent = [''Hb '', ''is fine''], create_calls = [], sends_left = Some 0\<rparr>)"
    by (simp add: send_text_def numeral_2_eq_2)
  from stream_forwards_nonempty_fragments [OF run] run show ?thesis
    by simp
qed

lemma parse_message_dict:
  "loaded inp = Loaded (PDict kvs) \<Longrightarrow>
   parse_message sid inp s = Inr (dict_get kvs ''text'' (PStr []), s sid, s(sid := None))"
  by (simp add: parse_message_def store_pop_def)

lemma parse_message_fallback:
  "loaded inp = JSONDecodeError \<Longrightarrow>
   parse_message sid inp s = Inr (PStr (raw_data inp), None, s)"
  by (simp add: parse_message_def)

lemma parse_message_cases:
  "parse_message sid inp s = Inr (um, fcd, s') \<Longrightarrow>
   (fcd = None \<and> s' = s) \<or> (fcd = s sid \<and> s' = s(sid := None))"
  by (auto simp: parse_message_def store_pop_def split: loads_result.splits pyval.splits)

text \<open>The store after a pass of the loop is the store after step 1.\<close>

lemma websocket_turn_store:
  "uploaded_data_store (snd (websocket_turn sid inp st)) =
     (case parse_message sid inp (uploaded_data_store st) of
        Inl e \<Rightarrow> uploaded_data_store st
      | Inr (um, fcd, s') \<Rightarrow> s')"
proof (cases "parse_message sid inp (uploaded_data_store st)")
  case (Inl e)
  then show ?thesis by (simp add: websocket_turn_def)
next
  case (Inr t)
  obtain um fcd s' where t: "t = (um, fcd, s')"
    by (cases t)
  show ?thesis
  proof (cases "build_message_content um fcd")
    case (Inl e)
    with Inr t show ?thesis by (simp add: websocket_turn_def)
  next
    case mc: (Inr message_content)
    show ?thesis
    proof (cases "upstream inp")
      case CreateRaises
      with Inr t mc show ?thesis by (simp add: websocket_turn_def Let_def)
    next
      case (Stream events)
      define st3 where "st3 = st\<lparr>uploaded_data_store := s',
          chat_history := chat_history st @ [\<lparr>role = User, content = Parts message_content\<rparr>],
          create_calls := create_calls st
            @ [chat_history st @ [\<lparr>role = User, content = Parts message_content\<rparr>]]\<rparr>"
      obtain r st4 where sl: "stream_loop events [] st3 = (r, st4)"
        by (cases "stream_loop events [] st3")
      from stream_loop_frame [OF sl] have "uploaded_data_store st4 = s'"
        by (simp add: st3_def)
      with Inr t mc Stream sl show ?thesis
        by (cases r) (simp_all add: websocket_turn_def Let_def st3_def)
    qed
  qed
qed

text \<open>What a pass of the loop appends to the history, by the way it ends.\<close>

lemma websocket_turn_history:
  assumes "websocket_turn sid inp st = (r, st')"
  shows "case r of
           Inr (Streamed mc full) \<Rightarrow>
             chat_history st' = chat_history st
               @ \<lparr>role = User, content = Parts mc\<rparr>
               # (if full \<noteq> [] then [\<lparr>role = Assistant, content = Text full\<rparr>] else [])
         | Inr Skipped \<Rightarrow> chat_history st' = chat_history st
         | Inl e \<Rightarrow>
             chat_history st' = chat_history st
             \<or> (\<exists>mc. chat_history st' = chat_history st @ [\<lparr>role = User, content = Parts mc\<rparr>])"
proof (cases "parse_message sid inp (uploaded_data_store st)")
  case (Inl e)
  with assms show ?thesis by (auto simp: websocket_turn_def)
next
  case (Inr t)
  obtain um fcd s' where t: "t = (um, fcd, s')"
    by (cases t)
  show ?thesis
  proof (cases "build_message_content um fcd")
    case (Inl e)
    with assms Inr t show ?thesis by (auto simp: websocket_turn_def)
  next
    case mc: (Inr message_content)
    show ?thesis
    proof (cases "message_content = []")
      case True
      with assms Inr t mc show ?thesis by (auto simp: websocket_turn_def)
    next
      case False
      show ?thesis
      proof (cases "upstream inp")
        case CreateRaises
        with assms Inr t mc False show ?thesis by (auto simp: websocket_turn_def Let_def)
      next
        case (Stream events)
        define st3 where "st3 = st\<lparr>uploaded_data_store := s',
            chat_history := chat_history st @ [\<lparr>role = User, content = Parts message_content\<rparr>],
            create_calls := create_calls st
              @ [chat_history st @ [\<lparr>role = User, content = Parts message_content\<rparr>]]\<rparr>"
        obtain r4 st4 where sl: "stream_loop events [] st3 = (r4, st4)"
          by (cases "stream_loop events [] st3")
        from stream_loop_frame [OF sl]
        have h4: "chat_history st4
                    = chat_history st @ [\<lparr>role = User, content = Parts message_content\<rparr>]"
          by (simp add: st3_def)
        from assms Inr t mc False Stream sl h4 show ?thesis
          by (cases r4) (auto simp: websocket_turn_def Let_def st3_def)
      qed
    qed
  qed
qed

text \<open>
  C1, as the spec states it, fails: session \<open>s1\<close> has a pending image, the client sends
  the plain text \<open>hello\<close>, on which \<open>json.loads\<close> raises; the turn is answered as a
  text-only turn, and the pending entry is still in the store when the turn is over.
\<close>

theorem unparsed_turn_keeps_pending_entry:
  "websocket_turn ''s1''
     \<lparr>raw_data = ''hello'', loaded = JSONDecodeError,
      upstream = Stream [Yield (Chunk [Some ''Hi''])]\<rparr>
     \<lparr>uploaded_data_store = [''s1'' \<mapsto> ''data:image/png;base64,iVBORw==''],
      chat_history = initial_history, sent = [], create_calls = [], sends_left = None\<rparr>
   = (Inr (Streamed [TextPart (PStr ''hello'')] ''Hi''),
      \<lparr>uploaded_data_store = [''s1'' \<mapsto> ''data:image/png;base64,iVBORw==''],
       chat_history = initial_history
         @ [\<lparr>role = User, content = Parts [TextPart (PStr ''hello'')]\<rparr>,
            \<lparr>role = Assistant, content = Text ''Hi''\<rparr>],
       sent = [''Hi''],
       create_calls = [initial_history
         @ [\<lparr>role = User, content = Parts [TextPart (PStr ''hello'')]\<rparr>]],
       sends_left = None\<rparr>)
   \<and> uploaded_data_store (snd (websocket_turn ''s1''
         \<lparr>raw_data = ''hello'', loaded = JSONDecodeError,
          upstream = Stream [Yield (Chunk [Some ''Hi''])]\<rparr>
         \<lparr>uploaded_data_store = [''s1'' \<mapsto> ''data:image/png;base64,iVBORw==''],
          chat_history = initial_history, sent = [], create_calls = [],
          sends_left = None\<rparr>)) ''s1'' \<noteq> None"
  by (simp add: websocket_turn_def parse_message_def build_message_content_def send_text_def
      Let_def)

text \<open>
  C1, amended: on every chat turn whose payload parses as a JSON object, the pending-file
  entry of the session is out of the store when the turn is over, however the turn
  ends and whether or not a file payload was there to merge; on a turn whose payload
  does not parse as JSON, the store is left as it was.
\<close>

theorem parsed_turn_consumes_pending_entry:
  "(loaded inp = Loaded (PDict message_payload) \<longrightarrow>
      uploaded_data_store (snd (websocket_turn sid inp st)) sid = None)
   \<and> (loaded inp = JSONDecodeError \<longrightarrow>
      uploaded_data_store (snd (websocket_turn sid inp st)) = uploaded_data_store st)"
  by (simp add: websocket_turn_store parse_message_dict parse_message_fallback)

theorem parsed_turn_consumes_pending_entry_witness:
  "uploaded_data_store (snd (websocket_turn ''s1''
      \<lparr>raw_data = ''{}'', loaded = Loaded (PDict []), upstream = CreateRaises\<rparr>
      \<lparr>uploaded_data_store = [''s1'' \<mapsto> ''data:image/png;base64,iVBORw==''],
       chat_history = initial_history, sent = [], create_calls = [],
       sends_left = None\<rparr>)) ''s1'' = None
   \<and> uploaded_data_store (snd (websocket_turn ''s1''
      \<lparr>raw_data = ''hello'', loaded = JSONDecodeError, upstream = Stream []\<rparr>
      \<lparr>uploaded_data_store = [''s1'' \<mapsto> ''data:image/png;base64,iVBORw==''],
       chat_history = initial_history, sent = [], create_calls = [],
       sends_left = None\<rparr>))
     = [''s1'' \<mapsto> ''data:image/png;base64,iVBORw=='']"
  using
    parsed_turn_consumes_pending_entry
      [of "\<lparr>raw_data = ''{}'', loaded = Loaded (PDict []), upstream = CreateRaises\<rparr>" "[]"
          "''s1''"
          "\<lparr>uploaded_data_store = [''s1'' \<mapsto> ''data:image/png;base64,iVBORw==''],
            chat_history = initial_history, sent = [], create_calls = [], sends_left = None\<rparr>"]
    parsed_turn_consumes_pending_entry
      [of "\<lparr>raw_data = ''hello'', loaded = JSONDecodeError, upstream = Stream []\<rparr>" "[]"
          "''s1''"
          "\<lparr>uploaded_data_store = [''s1'' \<mapsto> ''data:image/png;base64,iVBORw==''],
            chat_history = initial_history, sent = [], create_calls = [], sends_left = None\<rparr>"]
  by simp

text \<open>
  C8: a chat turn whose user text is empty, for a session with no pending file payload,
  ends at the \<open>continue\<close>: the store, the history, the texts sent and the upstream calls
  are what they were, and the loop goes on with the next message as if this one had
  not come.
\<close>

theorem empty_turn_is_skipped:
  assumes "parse_message sid inp (uploaded_data_store st) = Inr (user_message, fcd, s')"
    and "\<not> truthy user_message"
    and "uploaded_data_store st sid = None"
  shows "websocket_turn sid inp st = (Inr Skipped, st)
         \<and> create_calls (snd (websocket_turn sid inp st)) = create_calls st
         \<and> relay_loop sid (inp # inps) st = relay_loop sid inps st"
proof -
  from parse_message_cases [OF assms(1)] assms(3) have "fcd = None" "s' = uploaded_data_store st"
    by auto
  with assms(1,2) have "websocket_turn sid inp st = (Inr Skipped, st)"
    by (simp add: websocket_turn_def build_message_content_def)
  then show ?thesis
    by simp
qed

theorem empty_turn_is_skipped_witness:
  "\<not> truthy (PStr '''')
   \<and> websocket_turn ''s1''
        \<lparr>raw_data = ''{}'', loaded = Loaded (PDict []),
         upstream = Stream [Yield (Chunk [Some ''Hi''])]\<rparr>
        \<lparr>uploaded_data_store = [''s2'' \<mapsto> ''data:image/png;base64,iVBORw==''],
         chat_history = initial_history, sent = [], create_calls = [], sends_left = None\<rparr>
      = (Inr Skipped,
         \<lparr>uploaded_data_store = [''s2'' \<mapsto> ''data:image/png;base64,iVBORw==''],
          chat_history = initial_history, sent = [], create_calls = [], sends_left = None\<rparr>)"
proof -
  have p: "parse_message ''s1''
        \<lparr>raw_data = ''{}'', loaded = Loaded (PDict []),
         upstream = Stream [Yield (Chunk [Some ''Hi''])]\<rparr>
        (uploaded_data_store \<lparr>uploaded_data_store = [''s2'' \<mapsto> ''data:image/png;base64,iVBORw==''],
         chat_history = initial_history, sent = [], create_calls = [], sends_left = None\<rparr>)
      = Inr (PStr '''', None, [''s2'' \<mapsto> ''data:image/png;base64,iVBORw==''])"
    by (simp add: parse_message_def store_pop_def dict_get_def)
  have t: "\<not> truthy (PStr '''')"
    by simp
  have n: "uploaded_data_store \<lparr>uploaded_data_store = [''s2'' \<mapsto> ''data:image/png;base64,iVBORw==''],
         chat_history = initial_history, sent = [], create_calls = [], sends_left = None\<rparr> ''s1''
         = None"
    by simp
  from empty_turn_is_skipped [OF p t n] t show ?thesis
    by simp
qed

text \<open>
  C9: a turn that is completed with a non-empty accumulated response leaves the history
  two entries longer, the user entry followed by the assistant entry with the response;
  and whenever a turn, however it ends, has appended an assistant entry, it was completed
  with a non-empty accumulated response.
\<close>

theorem completed_turn_appends_two:
  assumes "websocket_turn sid inp st = (r, st')"
  shows "(r = Inr (Streamed mc full) \<and> full \<noteq> [] \<longrightarrow>
            chat_history st' = chat_history st
              @ [\<lparr>role = User, content = Parts mc\<rparr>, \<lparr>role = Assistant, content = Text full\<rparr>]
            \<and> length (chat_history st') = length (chat_history st) + 2)
         \<and> ((\<exists>m \<in> set (drop (length (chat_history st)) (chat_history st')). role m = Assistant)
              \<longrightarrow> (\<exists>mc' full'. r = Inr (Streamed mc' full') \<and> full' \<noteq> []))"
proof (cases r)
  case (Inl e)
  with websocket_turn_history [OF assms] show ?thesis
    by auto
next
  case (Inr outcome)
  show ?thesis
  proof (cases outcome)
    case Skipped
    with Inr websocket_turn_history [OF assms] show ?thesis
      by simp
  next
    case (Streamed mc1 full1)
    with Inr websocket_turn_history [OF assms] show ?thesis
      by (cases "full1 = []") simp_all
  qed
qed

theorem completed_turn_appends_two_witness:
  "websocket_turn ''s1''
     \<lparr>raw_data = ''hello'', loaded = JSONDecodeError,
      upstream = Stream [Yield (Chunk [Some ''Hi''])]\<rparr>
     \<lparr>uploaded_data_store = Map.empty, chat_history = initial_history, sent = [],
      create_calls = [], sends_left = None\<rparr>
   = (Inr (Streamed [TextPart (PStr ''hello'')] ''Hi''),
      \<lparr>uploaded_data_store = Map.empty,
       chat_history = initial_history
         @ [\<lparr>role = User, content = Parts [TextPart (PStr ''hello'')]\<rparr>,
            \<lparr>role = Assistant, content = Text ''Hi''\<rparr>],
       sent = [''Hi''],
       create_calls = [initial_history
         @ [\<lparr>role = User, content = Parts [TextPart (PStr ''hello'')]\<rparr>]],
       sends_left = None\<rparr>)
   \<and> ''Hi'' \<noteq> []
   \<and> length (initial_history
         @ [\<lparr>role = User, content = Parts [TextPart (PStr ''hello'')]\<rparr>,
            \<lparr>role = Assistant, content = Text ''Hi''\<rparr>]) = length initial_history + 2
   \<and> (\<exists>m \<in> set (drop (length initial_history) (initial_history
         @ [\<lparr>role = User, content = Parts [TextPart (PStr ''hello'')]\<rparr>,
            \<lparr>role = Assistant, content = Text ''Hi''\<rparr>])). role m = Assistant)"
proof -
  have run: "websocket_turn ''s1''
     \<lparr>raw_data = ''hello'', loaded = JSONDecodeError,
      upstream = Stream [Yield (Chunk [Some ''Hi''])]\<rparr>
     \<lparr>uploaded_data_store = Map.empty, chat_history = initial_history, sent = [],
      create_calls = [], sends_left = None\<rparr>
   = (Inr (Streamed [TextPart (PStr ''hello'')] ''Hi''),
      \<lparr>uploaded_data_store = Map.empty,
       chat_history = initial_history
         @ [\<lparr>role = User, content = Parts [TextPart (PStr ''hello'')]\<rparr>,
            \<lparr>role = Assistant, content = Text ''Hi''\<rparr>],
       sent = [''Hi''],
       create_calls = [initial_history
         @ [\<lparr>role = User, content = Parts [TextPart (PStr ''hello'')]\<rparr>]],
       sends_left = None\<rparr>)"
    by (simp add: websocket_turn_def parse_message_def build_message_content_def send_text_def
        Let_def)
  from completed_turn_appends_two [OF run, of "[TextPart (PStr ''hello'')]" "''Hi''"] run
  show ?thesis
    by simp
qed

text \<open>
  C10: a turn that reaches the streaming phase and is completed with an empty
  accumulated response leaves the history exactly one entry longer, the user entry; so
  when the next turn is completed too, its user entry comes right after that one, with
  no assistant entry between the two.
\<close>

theorem empty_response_keeps_user_entry:
  assumes "websocket_turn sid inp st = (Inr (Streamed mc []), st')"
  shows "chat_history st' = chat_history st @ [\<lparr>role = User, content = Parts mc\<rparr>]
         \<and> length (chat_history st') = length (chat_history st) + 1
         \<and> (websocket_turn sid inp2 st' = (Inr (Streamed mc2 full2), st'') \<longrightarrow>
              chat_history st'' = chat_history st
                @ [\<lparr>role = User, content = Parts mc\<rparr>, \<lparr>role = User, content = Parts mc2\<rparr>]
                @ (if full2 \<noteq> [] then [\<lparr>role = Assistant, content = Text full2\<rparr>] else []))"
proof -
  from websocket_turn_history [OF assms]
  have h: "chat_history st' = chat_history st @ [\<lparr>role = User, content = Parts mc\<rparr>]"
    by simp
  have "chat_history st'' = chat_history st
          @ [\<lparr>role = User, content = Parts mc\<rparr>, \<lparr>role = User, content = Parts mc2\<rparr>]
          @ (if full2 \<noteq> [] then [\<lparr>role = Assistant, content = Text full2\<rparr>] else [])"
    if "websocket_turn sid inp2 st' = (Inr (Streamed mc2 full2), st'')"
    using websocket_turn_history [OF that] h by simp
  with h show ?thesis
    by simp
qed

theorem empty_response_keeps_user_entry_witness:
  "websocket_turn ''s1''
     \<lparr>raw_data = ''hello'', loaded = JSONDecodeError,
      upstream = Stream [Yield (Chunk [None])]\<rparr>
     \<lparr>uploaded_data_store = Map.empty, chat_history = initial_history, sent = [],
      create_calls = [], sends_left = None\<rparr>
   = (Inr (Streamed [TextPart (PStr ''hello'')] []),
      \<lparr>uploaded_data_store = Map.empty,
       chat_history = initial_history
         @ [\<lparr>role = User, content = Parts [TextPart (PStr ''hello'')]\<rparr>],
       sent = [],
       create_calls = [initial_history
         @ [\<lparr>role = User, content = Parts [TextPart (PStr ''hello'')]\<rparr>]],
       sends_left = None\<rparr>)
   \<and> chat_history (snd (websocket_turn ''s1''
       \<lparr>raw_data = ''again'', loaded = JSONDecodeError, upstream = Stream []\<rparr>
       \<lparr>uploaded_data_store = Map.empty,
        chat_history = initial_history
          @ [\<lparr>role = User, content = Parts [TextPart (PStr ''hello'')]\<rparr>],
        sent = [],
        create_calls = [initial_history
          @ [\<lparr>role = User, content = Parts [TextPart (PStr ''hello'')]\<rparr>]],
        sends_left = None\<rparr>))
     = initial_history
         @ [\<lparr>role = User, content = Parts [TextPart (PStr ''hello'')]\<rparr>,
            \<lparr>role = User, content = Parts [TextPart (PStr ''again'')]\<rparr>]"
proof -
  let ?st1 = "\<lparr>uploaded_data_store = Map.empty,
       chat_history = initial_history
         @ [\<lparr>role = User, content = Parts [TextPart (PStr ''hello'')]\<rparr>],
       sent = [],
       create_calls = [initial_history
         @ [\<lparr>role = User, content = Parts [TextPart (PStr ''hello'')]\<rparr>]],
       sends_left = None\<rparr>"
  have run1: "websocket_turn ''s1''
     \<lparr>raw_data = ''hello'', loaded = JSONDecodeError,
      upstream = Stream [Yield (Chunk [None])]\<rparr>
     \<lparr>uploaded_data_store = Map.empty, chat_history = initial_history, sent = [],
      create_calls = [], sends_left = None\<rparr>
   = (Inr (Streamed [TextPart (PStr ''hello'')] []), ?st1)"
    by (simp add: websocket_turn_def parse_message_def build_message_content_def Let_def)
  obtain st2 where run2: "websocket_turn ''s1''
       \<lparr>raw_data = ''again'', loaded = JSONDecodeError, upstream = Stream []\<rparr> ?st1
     = (Inr (Streamed [TextPart (PStr ''again'')] []), st2)"
    by (simp add: websocket_turn_def parse_message_def build_message_content_def Let_def)
  from empty_response_keeps_user_entry
         [OF run1, of "\<lparr>raw_data = ''again'', loaded = JSONDecodeError, upstream = Stream []\<rparr>"
            "[TextPart (PStr ''again'')]" "[]" st2] run1 run2
  show ?thesis
    by simp
qed

end
